theory Spec2Isabelle
  imports Complex_Main "HOL-Library.AList"
begin

section \<open>Habit tracker: catalog, day store and derived values\<close>

text \<open>
  The component keeps one value, the store, and derives everything it shows from it.
  A JavaScript object used as a dictionary (\<open>Record<string, T>\<close>) is an association list
  in the order in which \<open>Object.entries\<close> enumerates it; an object has every key once.
  A \<open>Date\<close> is its time value, the milliseconds since 1 January 1970 UTC. What the
  platform adds to the program is a parameter: the host's time zone and the text of a
  day (see \<open>host\<close>), the JSON parser and the storage. Numbers are exact (no rounding of the
  quotient in \<open>done / itemCount\<close>).
\<close>

subsection \<open>Config\<close>

text \<open>The catalog and the badges, without the \<open>icon\<close> and \<open>emoji\<close> fields, which only the display reads.\<close>

record item =
  item_id :: string
  item_label :: string

record habit =
  habit_id :: string
  habit_label :: string
  items :: "item list"
  dailyGoal :: nat

record badge =
  badge_id :: string
  badge_label :: string
  threshold :: nat

definition HABITS :: "habit list" where
  "HABITS =
    [\<lparr>habit_id = ''smoking'', habit_label = ''Smoking'',
      items = [\<lparr>item_id = ''smoke_free'', item_label = ''Smoke-free today''\<rparr>,
               \<lparr>item_id = ''mindful_breaks'', item_label = ''Mindful breaks only (no cigarettes)''\<rparr>],
      dailyGoal = 1\<rparr>,
     \<lparr>habit_id = ''eating'', habit_label = ''Eating'',
      items = [\<lparr>item_id = ''home_cooked'', item_label = ''Home-cooked meal''\<rparr>,
               \<lparr>item_id = ''fruits_veggies'', item_label = ''5+ servings fruits/veggies''\<rparr>,
               \<lparr>item_id = ''no_sugar'', item_label = ''No sugary snacks''\<rparr>],
      dailyGoal = 2\<rparr>,
     \<lparr>habit_id = ''exercise'', habit_label = ''Exercise'',
      items = [\<lparr>item_id = ''workout_30'', item_label = ''Workout 30+ min''\<rparr>,
               \<lparr>item_id = ''walk_8k'', item_label = ''Walk 8k steps''\<rparr>,
               \<lparr>item_id = ''stretch_10'', item_label = ''Stretch 10 min''\<rparr>],
      dailyGoal = 2\<rparr>]"


definition BADGES :: "badge list" where
  "BADGES =
    [\<lparr>badge_id = ''bronze_3'', badge_label = ''Bronze: 3-day streak'', threshold = 3\<rparr>,
     \<lparr>badge_id = ''silver_7'', badge_label = ''Silver: 7-day streak'', threshold = 7\<rparr>,
     \<lparr>badge_id = ''gold_14'', badge_label = ''Gold: 14-day streak'', threshold = 14\<rparr>,
     \<lparr>badge_id = ''diamond_30'', badge_label = ''Diamond: 30-day streak'', threshold = 30\<rparr>]"

subsection \<open>Utils\<close>

text \<open>
  The host: the offset of its local time from UTC, in milliseconds, at a UTC time value
  (\<open>tza_utc\<close>) and at a local one (\<open>tza_local\<close>), and the text \<open>YYYY-MM-DD\<close> of the
  day with a given number (\<open>isoDate\<close>). The abstract operations of ECMAScript on time
  values follow.
\<close>

record host =
  tza_utc :: "int \<Rightarrow> int"
  tza_local :: "int \<Rightarrow> int"
  isoDate :: "int \<Rightarrow> string"

definition msPerDay :: int where
  "msPerDay = 86400000"

definition Day :: "int \<Rightarrow> int" where
  "Day t = t div msPerDay"

definition TimeWithinDay :: "int \<Rightarrow> int" where
  "TimeWithinDay t = t mod msPerDay"

definition MakeDate :: "int \<Rightarrow> int \<Rightarrow> int" where
  "MakeDate day time = day * msPerDay + time"

definition LocalTime :: "host \<Rightarrow> int \<Rightarrow> int" where
  "LocalTime H t = t + tza_utc H t"

definition UTC :: "host \<Rightarrow> int \<Rightarrow> int" where
  "UTC H t = t - tza_local H t"

text \<open>\<open>new Date("YYYY-MM-DD")\<close>, for the text of the day with this number: its UTC midnight.\<close>

definition newDate :: "int \<Rightarrow> int" where
  "newDate day = MakeDate day 0"

text \<open>\<open>keyFor(d)\<close>: \<open>toISOString\<close> writes the UTC date and time; its first ten characters are the day.\<close>

definition keyFor :: "host \<Rightarrow> int \<Rightarrow> string" where
  "keyFor H d = isoDate H (Day d)"

text \<open>
  \<open>prevDate(d, days)\<close>: a copy of the date, changed by \<open>setDate(getDate() - days)\<close>.
  \<open>getDate\<close> and \<open>setDate\<close> work on the local time of the date: \<open>setDate\<close> keeps its
  year, month and time of day and sets the day of the month, and the day that \<open>MakeDay\<close>
  finds for the day of the month \<open>getDate() - days\<close> is the local day less \<open>days\<close>. The
  local time so made becomes the time value again through \<open>UTC\<close>.
\<close>

definition prevDate :: "host \<Rightarrow> int \<Rightarrow> nat \<Rightarrow> int" where
  "prevDate H d days =
     (let x = d;
          t = LocalTime H x
      in UTC H (MakeDate (Day t - int days) (TimeWithinDay t)))"

text \<open>
  \<open>s.split(".")\<close>: the pieces between the dots; the empty string gives one empty piece.
  The last case of the inner \<open>case\<close> is never taken, the result having a piece always.
\<close>

fun split_dot :: "string \<Rightarrow> string list" where
  "split_dot [] = [[]]"
| "split_dot (c # cs) =
     (if c = CHR ''.'' then [] # split_dot cs
      else (case split_dot cs of w # ws \<Rightarrow> (c # w) # ws | [] \<Rightarrow> [[c]]))"

text \<open>
  Array destructuring \<open>const [habitId, itemId] = key.split(".")\<close>: the element at the
  position, \<open>undefined\<close> (here \<open>None\<close>) where the array is shorter.
\<close>

fun element :: "'a list \<Rightarrow> nat \<Rightarrow> 'a option" where
  "element [] n = None"
| "element (x # xs) 0 = Some x"
| "element (x # xs) (Suc n) = element xs n"

text \<open>\<open>Array.prototype.join\<close>: \<open>undefined\<close> is written as the empty string.\<close>

fun join :: "string \<Rightarrow> string option list \<Rightarrow> string" where
  "join sep [] = []"
| "join sep [x] = (case x of None \<Rightarrow> [] | Some s \<Rightarrow> s)"
| "join sep (x # y # ys) = (case x of None \<Rightarrow> [] | Some s \<Rightarrow> s) @ sep @ join sep (y # ys)"

subsection \<open>Storage\<close>

type_synonym DailyState = "(string \<times> bool) list"

record DayRecord =
  date :: string
  checks :: DailyState

record StoreShape =
  byDate :: "(string \<times> DayRecord) list"

subsection \<open>Component\<close>

text \<open>
  \<open>toggleCheck\<close>, applied to the previous store: the selected date's record is replaced by
  one whose checks have the key negated (\<open>!undefined\<close> is \<open>true\<close>).
\<close>

definition toggleCheck :: "string \<Rightarrow> string \<Rightarrow> string \<Rightarrow> StoreShape \<Rightarrow> StoreShape" where
  "toggleCheck selectedDate habitId itemId prev =
     (let key = habitId @ ''.'' @ itemId;
          existing = (case map_of (byDate prev) selectedDate of
                        None \<Rightarrow> [] | Some r \<Rightarrow> checks r);
          nextChecks = AList.update key
                         (\<not> (case map_of existing key of None \<Rightarrow> False | Some v \<Rightarrow> v)) existing
      in \<lparr>byDate = AList.update selectedDate
                      \<lparr>date = selectedDate, checks = nextChecks\<rparr> (byDate prev)\<rparr>)"

record counts =
  perHabit :: "string \<rightharpoonup> nat"
  total :: nat

text \<open>\<open>perHabit.get(habitId) || 0\<close>\<close>

definition get_or0 :: "(string \<rightharpoonup> nat) \<Rightarrow> string \<Rightarrow> nat" where
  "get_or0 m k = (case m k of None \<Rightarrow> 0 | Some n \<Rightarrow> n)"

text \<open>
  The body of the \<open>forEach\<close> over the entries of a record's checks. The key's first piece
  is there always (\<open>split_dot\<close> never gives the empty list), so the \<open>None\<close> case is not taken.
\<close>

fun count_entry :: "counts \<Rightarrow> string \<times> bool \<Rightarrow> counts" where
  "count_entry acc (k, v) =
     (if \<not> v then acc
      else (case element (split_dot k) 0 of
              None \<Rightarrow> acc
            | Some habitId \<Rightarrow>
                \<lparr>perHabit = (perHabit acc)(habitId \<mapsto> get_or0 (perHabit acc) habitId + 1),
                 total = total acc + 1\<rparr>))"

definition getCountsForDate :: "StoreShape \<Rightarrow> string \<Rightarrow> counts" where
  "getCountsForDate store dateKey =
     (case map_of (byDate store) dateKey of
        None \<Rightarrow> \<lparr>perHabit = Map.empty, total = 0\<rparr>
      | Some rec \<Rightarrow> foldl count_entry \<lparr>perHabit = Map.empty, total = 0\<rparr> (checks rec))"

record progress =
  p_done :: nat
  p_total :: nat
  pct :: int
  goalMet :: bool

text \<open>
  \<open>progressForHabit\<close>: \<open>HABITS.find(...)!\<close> is \<open>undefined\<close> for an id outside the catalog,
  and reading \<open>cfg.items\<close> then throws (\<open>None\<close>). \<open>Math.round\<close> rounds a half upward, as
  \<open>round\<close> does.
\<close>

definition progressForHabit :: "StoreShape \<Rightarrow> string \<Rightarrow> string \<Rightarrow> progress option" where
  "progressForHabit store selectedDate habitId =
     (let done = get_or0 (perHabit (getCountsForDate store selectedDate)) habitId
      in case find (\<lambda>h. habit_id h = habitId) HABITS of
           None \<Rightarrow> None
         | Some cfg \<Rightarrow>
             Some \<lparr>p_done = done, p_total = length (items cfg),
                   pct = min 100 (round ((real done / real (length (items cfg))) * 100)),
                   goalMet = (dailyGoal cfg \<le> done)\<rparr>)"


definition overallGoalMet :: "StoreShape \<Rightarrow> string \<Rightarrow> bool" where
  "overallGoalMet store dateKey =
     list_all (\<lambda>h. dailyGoal h \<le> get_or0 (perHabit (getCountsForDate store dateKey)) (habit_id h))
       HABITS"

text \<open>
  The \<open>while (true)\<close> loop of \<open>overallStreak\<close>, with its two variables. It has no bound of
  its own: a walk that never meets a day short of its goals does not return (\<open>None\<close>).
\<close>

partial_function (option) streak_loop ::
  "host \<Rightarrow> StoreShape \<Rightarrow> nat \<Rightarrow> int \<Rightarrow> nat option" where
  "streak_loop H store streak d =
     (if overallGoalMet store (keyFor H d) then streak_loop H store (streak + 1) (prevDate H d 1)
      else Some streak)"

text \<open>\<open>overallStreak\<close>, given the value \<open>d\<close> of \<open>new Date(selectedDate)\<close>.\<close>

definition overallStreak :: "host \<Rightarrow> StoreShape \<Rightarrow> int \<Rightarrow> nat option" where
  "overallStreak H store d = streak_loop H store 0 d"

definition earnedBadges :: "nat \<Rightarrow> string list" where
  "earnedBadges overallStreak_v = map badge_id (filter (\<lambda>b. threshold b \<le> overallStreak_v) BADGES)"

text \<open>
  The footer's two buttons, applied to the previous store. \<open>Clear\<close> copies \<open>byDate\<close> and
  deletes the selected date from the copy; \<open>Reset All\<close> returns at once unless \<open>confirm\<close>
  answered yes.
\<close>

definition clearDate :: "string \<Rightarrow> StoreShape \<Rightarrow> StoreShape" where
  "clearDate selectedDate prev =
     (let next = AList.delete selectedDate (byDate prev) in \<lparr>byDate = next\<rparr>)"

definition resetAll :: "bool \<Rightarrow> StoreShape \<Rightarrow> StoreShape" where
  "resetAll confirmed store = (if \<not> confirmed then store else \<lparr>byDate = []\<rparr>)"

subsection \<open>CSV export\<close>

definition headers :: "string list" where
  "headers = [''date'', ''habitId'', ''itemId'', ''checked'']"

text \<open>
  The rows one day adds: first one per entry of its checks, then one with \<open>0\<close> for each
  catalog key that is not a key of its checks (\<open>k in day.checks\<close>).
\<close>

definition day_rows :: "DayRecord \<Rightarrow> string list" where
  "day_rows day =
     map (\<lambda>(key, checked).
            let parts = split_dot key
            in join '','' [Some (date day), element parts 0, element parts 1,
                           Some (if checked then ''1'' else ''0'')])
         (checks day)
     @ concat (map (\<lambda>h. concat (map (\<lambda>it.
            let k = habit_id h @ ''.'' @ item_id it
            in if map_of (checks day) k = None
               then [join '','' [Some (date day), Some (habit_id h), Some (item_id it), Some ''0'']]
               else []) (items h))) HABITS)"

definition exportCSV_rows :: "(string \<times> DayRecord) list \<Rightarrow> string list" where
  "exportCSV_rows byDate_v =
     join '','' (map Some headers) # concat (map (\<lambda>(k, day). day_rows day) byDate_v)"

text \<open>The text handed to the download: the rows joined by newlines.\<close>

definition exportCSV :: "(string \<times> DayRecord) list \<Rightarrow> string" where
  "exportCSV byDate_v = join [CHR 0x0A] (map Some (exportCSV_rows byDate_v))"

subsection \<open>Loading the store\<close>

text \<open>
  What \<open>JSON.parse\<close> returns, and how a call ends: by throwing or with a value. The
  parser and \<open>localStorage.getItem\<close> are the platform's and are parameters; an object's
  fields are listed with every key once.
\<close>

datatype json =
  JNull | JBool bool | JNum real | JStr string | JArr "json list" | JObj "(string \<times> json) list"

datatype 'a completion = Throw | Normal 'a

definition STORAGE_KEY :: string where
  "STORAGE_KEY = ''habit-tracker-v1''"

text \<open>JavaScript's truthiness of a parsed value.\<close>

fun truthy :: "json \<Rightarrow> bool" where
  "truthy JNull = False"
| "truthy (JBool b) = b"
| "truthy (JNum x) = (x \<noteq> 0)"
| "truthy (JStr s) = (s \<noteq> [])"
| "truthy (JArr xs) = True"
| "truthy (JObj fs) = True"

text \<open>\<open>parsed?.byDate\<close>: \<open>undefined\<close> (\<open>None\<close>) unless \<open>parsed\<close> is an object with that field.\<close>

fun byDate_of :: "json \<Rightarrow> json option" where
  "byDate_of (JObj fs) = map_of fs ''byDate''"
| "byDate_of j = None"

definition empty_store :: json where
  "empty_store = JObj [(''byDate'', JObj [])]"

text \<open>The \<open>try\<close> block of \<open>loadStore\<close>; a throw inside it leaves it.\<close>

definition loadStore_try ::
  "(string \<Rightarrow> json completion) \<Rightarrow> (string \<Rightarrow> string option completion) \<Rightarrow> json completion" where
  "loadStore_try JSON_parse getItem =
     (case getItem STORAGE_KEY of
        Throw \<Rightarrow> Throw
      | Normal raw \<Rightarrow>
          (case raw of
             None \<Rightarrow> Normal empty_store
           | Some r \<Rightarrow>
               if r = [] then Normal empty_store
               else (case JSON_parse r of
                       Throw \<Rightarrow> Throw
                     | Normal parsed \<Rightarrow>
                         Normal (if (case byDate_of parsed of None \<Rightarrow> False | Some v \<Rightarrow> truthy v)
                                 then parsed else empty_store))))"

text \<open>\<open>loadStore\<close>: the \<open>try\<close> block, and the \<open>catch\<close> that returns the empty store.\<close>

definition loadStore ::
  "(string \<Rightarrow> json completion) \<Rightarrow> (string \<Rightarrow> string option completion) \<Rightarrow> json completion" where
  "loadStore JSON_parse getItem =
     (case loadStore_try JSON_parse getItem of
        Throw \<Rightarrow> Normal empty_store
      | Normal v \<Rightarrow> Normal v)"

text \<open>The JSON value of a store: what \<open>JSON.stringify\<close> writes and \<open>JSON.parse\<close> reads back.\<close>

definition json_of_day :: "DayRecord \<Rightarrow> json" where
  "json_of_day r =
     JObj [(''date'', JStr (date r)), (''checks'', JObj (map (\<lambda>(k, v). (k, JBool v)) (checks r)))]"

definition json_of_store :: "StoreShape \<Rightarrow> json" where
  "json_of_store s = JObj [(''byDate'', JObj (map (\<lambda>(d, r). (d, json_of_day r)) (byDate s)))]"

text \<open>
  \<open>saveStore\<close>, run after every change of the store. \<open>localStorage.setItem\<close> is the
  platform's and can throw (a full or disabled storage); nothing around the call catches.
\<close>

definition saveStore ::
  "(string \<Rightarrow> string \<Rightarrow> unit completion) \<Rightarrow> (json \<Rightarrow> string) \<Rightarrow> StoreShape \<Rightarrow> unit completion" where
  "saveStore setItem JSON_stringify s = setItem STORAGE_KEY (JSON_stringify (json_of_store s))"

subsection \<open>Notions of the specification\<close>

text \<open>
  The number of a habit's checked items on a date, as the specification counts it: the
  entries of that date's checks that are \<open>true\<close> and whose key starts with the habit's id.
\<close>

definition checked_items_of :: "StoreShape \<Rightarrow> string \<Rightarrow> string \<Rightarrow> nat" where
  "checked_items_of store dateKey habitId =
     (case map_of (byDate store) dateKey of
        None \<Rightarrow> 0
      | Some rec \<Rightarrow>
          length (filter (\<lambda>(k, v). v \<and> element (split_dot k) 0 = Some habitId) (checks rec)))"


text \<open>The dates that the loop of \<open>overallStreak\<close> tests, from \<open>d\<close> on.\<close>

primrec walk :: "host \<Rightarrow> int \<Rightarrow> nat \<Rightarrow> int" where
  "walk H d 0 = d"
| "walk H d (Suc i) = walk H (prevDate H d 1) i"

text \<open>The keys \<open>habitId.itemId\<close> of the catalog; a key of a record that is none of them is stale.\<close>

definition catalog_keys :: "string list" where
  "catalog_keys = concat (map (\<lambda>h. map (\<lambda>it. habit_id h @ ''.'' @ item_id it) (items h)) HABITS)"



text \<open>
  Every record of a store has each key once, as an object has. A store as the component
  itself writes it has keys of the catalog only; \<open>stale_count\<close> is the number of the other
  keys.
\<close>

definition keys_once :: "(string \<times> DayRecord) list \<Rightarrow> bool" where
  "keys_once byDate_v = list_all (\<lambda>(d, r). distinct (map fst (checks r))) byDate_v"

definition catalog_only :: "(string \<times> DayRecord) list \<Rightarrow> bool" where
  "catalog_only byDate_v =
     list_all (\<lambda>(d, r). list_all (\<lambda>(k, v). k \<in> set catalog_keys) (checks r)) byDate_v"

definition stale_count :: "(string \<times> DayRecord) list \<Rightarrow> nat" where
  "stale_count byDate_v =
     sum_list (map (\<lambda>(d, r). length (filter (\<lambda>(k, v). k \<notin> set catalog_keys) (checks r))) byDate_v)"

text \<open>
  The day of the specification's example: one of two smoking items, two of three eating
  items and two of three exercise items are checked.
\<close>

definition example_store :: StoreShape where
  "example_store =
     \<lparr>byDate = [(''2024-05-01'',
        \<lparr>date = ''2024-05-01'',
         checks = [(''smoking.smoke_free'', True), (''eating.home_cooked'', True),
                   (''eating.no_sugar'', True), (''exercise.workout_30'', True),
                   (''exercise.walk_8k'', True)]\<rparr>)]\<rparr>"

text \<open>
  The texts of the days that the examples use: 26 April to 1 May 2024 (days 19839 to
  19844) and 31 October to 4 November 2024 (days 20027 to 20031). Two hosts: one on UTC,
  and one in New York, where the clocks went back from four to five hours behind UTC on
  3 November 2024 at 06:00 UTC, which was 02:00 local time (the only change of its
  offset between March 2024 and March 2025).
\<close>

definition iso_2024 :: "int \<Rightarrow> string" where
  "iso_2024 day =
     (if day = 19844 then ''2024-05-01'' else if day = 19843 then ''2024-04-30''
      else if day = 19842 then ''2024-04-29'' else if day = 19841 then ''2024-04-28''
      else if day = 19840 then ''2024-04-27'' else if day = 19839 then ''2024-04-26''
      else if day = 20031 then ''2024-11-04'' else if day = 20030 then ''2024-11-03''
      else if day = 20029 then ''2024-11-02'' else if day = 20028 then ''2024-11-01''
      else if day = 20027 then ''2024-10-31'' else [])"

definition utc_host :: host where
  "utc_host = \<lparr>tza_utc = (\<lambda>t. 0), tza_local = (\<lambda>t. 0), isoDate = iso_2024\<rparr>"

definition new_york :: host where
  "new_york =
     \<lparr>tza_utc = (\<lambda>t. if t < 1730613600000 then - 14400000 else - 18000000),
      tza_local = (\<lambda>t. if t < 1730599200000 then - 14400000 else - 18000000),
      isoDate = iso_2024\<rparr>"

text \<open>
  In \<open>streak_store\<close> the goals are met on 28, 29 and 30 April, and not on 27 April (no
  record) and 1 May. In \<open>dst_store\<close> they are met on 2 and 4 November, and 1 and 3
  November have no record.
\<close>

definition met_checks :: DailyState where
  "met_checks = [(''smoking.smoke_free'', True), (''eating.home_cooked'', True),
                 (''eating.no_sugar'', True), (''exercise.workout_30'', True),
                 (''exercise.walk_8k'', True)]"

definition streak_store :: StoreShape where
  "streak_store =
     \<lparr>byDate = [(''2024-04-28'', \<lparr>date = ''2024-04-28'', checks = met_checks\<rparr>),
                (''2024-04-29'', \<lparr>date = ''2024-04-29'', checks = met_checks\<rparr>),
                (''2024-04-30'', \<lparr>date = ''2024-04-30'', checks = met_checks\<rparr>),
                (''2024-05-01'', \<lparr>date = ''2024-05-01'', checks = [(''smoking.smoke_free'', True)]\<rparr>)]\<rparr>"

definition dst_store :: StoreShape where
  "dst_store =
     \<lparr>byDate = [(''2024-11-02'', \<lparr>date = ''2024-11-02'', checks = met_checks\<rparr>),
                (''2024-11-04'', \<lparr>date = ''2024-11-04'', checks = met_checks\<rparr>)]\<rparr>"

text \<open>
  A third host, in Apia, which went from ten hours behind UTC to fourteen hours ahead at
  the end of 29 December 2011 (10:00 UTC on 30 December): its local time had no
  30 December. A local time of that day is read with the offset from before the
  change. \<open>apia_store\<close> has one record, for 31 December 2011, on which the goals are met.
\<close>

definition iso_2011 :: "int \<Rightarrow> string" where
  "iso_2011 day =
     (if day = 15339 then ''2011-12-31'' else if day = 15338 then ''2011-12-30''
      else if day = 15337 then ''2011-12-29'' else [])"

definition apia :: host where
  "apia =
     \<lparr>tza_utc = (\<lambda>t. if t < 1325239200000 then - 36000000 else 50400000),
      tza_local = (\<lambda>t. if t < 1325289600000 then - 36000000 else 50400000),
      isoDate = iso_2011\<rparr>"

definition apia_store :: StoreShape where
  "apia_store = \<lparr>byDate = [(''2011-12-31'', \<lparr>date = ''2011-12-31'', checks = met_checks\<rparr>)]\<rparr>"

text \<open>
  A store with stale keys, as an older catalog or an edited storage entry leaves them: two
  items that the catalog's habits do not have, and one habit that the catalog does not have.
\<close>

definition stale_store :: StoreShape where
  "stale_store =
     \<lparr>byDate = [(''2024-05-01'',
        \<lparr>date = ''2024-05-01'',
         checks = [(''smoking.vape_free'', True), (''eating.home_cooked'', True),
                   (''eating.green_tea'', True), (''exercise.workout_30'', True),
                   (''exercise.walk_8k'', True), (''sleep.eight_hours'', True)]\<rparr>)]\<rparr>"

section \<open>Properties\<close>

subsection \<open>The catalog\<close>

lemma habit_ids: "map habit_id HABITS = [''smoking'', ''eating'', ''exercise'']"
  by (simp add: HABITS_def)

lemma find_by_id:
  "distinct (map habit_id hs) \<Longrightarrow> h \<in> set hs \<Longrightarrow> find (\<lambda>h'. habit_id h' = habit_id h) hs = Some h"
  by (induction hs) (auto simp: image_iff)

lemma find_HABITS: "h \<in> set HABITS \<Longrightarrow> find (\<lambda>h'. habit_id h' = habit_id h) HABITS = Some h"
  by (rule find_by_id) (simp_all add: habit_ids)


lemma HABITS_bounds:
  "list_all (\<lambda>h. 0 < length (items h) \<and> 1 \<le> dailyGoal h \<and> dailyGoal h \<le> length (items h)) HABITS"
  by (simp add: HABITS_def)

lemma items_HABITS: "h \<in> set HABITS \<Longrightarrow> 0 < length (items h)"
  using HABITS_bounds by (simp add: list_all_iff)

lemma dailyGoal_HABITS: "h \<in> set HABITS \<Longrightarrow> 1 \<le> dailyGoal h"
  using HABITS_bounds by (simp add: list_all_iff)

lemma catalog_keys_eq:
  "catalog_keys = [''smoking.smoke_free'', ''smoking.mindful_breaks'', ''eating.home_cooked'',
     ''eating.fruits_veggies'', ''eating.no_sugar'', ''exercise.workout_30'', ''exercise.walk_8k'',
     ''exercise.stretch_10'']"
  by (simp add: catalog_keys_def HABITS_def)

lemma catalog_keys_distinct: "distinct catalog_keys" and catalog_keys_length: "length catalog_keys = 8"
  by (simp_all add: catalog_keys_eq)


lemma split_catalog_keys:
  "list_all (\<lambda>h. list_all (\<lambda>it. split_dot (habit_id h @ ''.'' @ item_id it) = [habit_id h, item_id it])
               (items h)) HABITS"
  by (simp add: HABITS_def)

lemma split_catalog_key:
  "h \<in> set HABITS \<Longrightarrow> it \<in> set (items h) \<Longrightarrow>
     split_dot (habit_id h @ ''.'' @ item_id it) = [habit_id h, item_id it]"
  using split_catalog_keys by (simp add: list_all_iff)



subsection \<open>Counting\<close>

lemma split_dot_not_Nil: "split_dot k \<noteq> []"
  by (induction k) (auto split: list.splits)

lemma element_split_dot: "\<exists>h. element (split_dot k) 0 = Some h"
  using split_dot_not_Nil [of k] by (cases "split_dot k") auto

lemma foldl_count_entry_perHabit:
  "get_or0 (perHabit (foldl count_entry acc xs)) habitId =
     get_or0 (perHabit acc) habitId
       + length (filter (\<lambda>(k, v). v \<and> element (split_dot k) 0 = Some habitId) xs)"
proof (induction xs arbitrary: acc)
  case Nil
  show ?case by simp
next
  case (Cons x xs)
  obtain k v where x: "x = (k, v)" by (cases x)
  obtain h where h: "element (split_dot k) 0 = Some h" using element_split_dot by blast
  show ?case
    using Cons.IH [of "count_entry acc x"] x h
    by (simp add: get_or0_def)
qed


lemma done_is_checked_items:
  "get_or0 (perHabit (getCountsForDate store dateKey)) habitId = checked_items_of store dateKey habitId"
proof (cases "map_of (byDate store) dateKey")
  case None
  then show ?thesis
    by (simp add: getCountsForDate_def checked_items_of_def get_or0_def)
next
  case (Some r)
  have "get_or0 (perHabit \<lparr>perHabit = Map.empty, total = 0\<rparr>) habitId = 0"
    by (simp add: get_or0_def)
  with Some show ?thesis
    by (simp add: getCountsForDate_def checked_items_of_def foldl_count_entry_perHabit)
qed


lemma round_percent:
  assumes "0 < n"
  shows "round ((real d / real n) * 100) = (200 * int d + int n) div (2 * int n)"
proof -
  have "(real d / real n) * 100 + 1 / 2 = real_of_int (200 * int d + int n) / real_of_int (2 * int n)"
    using assms by (simp add: field_simps)
  then show ?thesis
    unfolding round_def by (simp only: floor_divide_of_int_eq)
qed

lemma progressForHabit_catalog:
  assumes "h \<in> set HABITS"
  shows "progressForHabit store dateKey (habit_id h) =
           Some \<lparr>p_done = checked_items_of store dateKey (habit_id h),
                 p_total = length (items h),
                 pct = min 100 (round ((real (checked_items_of store dateKey (habit_id h))
                                          / real (length (items h))) * 100)),
                 goalMet = (dailyGoal h \<le> checked_items_of store dateKey (habit_id h))\<rparr>"
  by (simp add: progressForHabit_def done_is_checked_items find_HABITS [OF assms] Let_def)

lemma overallGoalMet_iff:
  "overallGoalMet store dateKey = (\<forall>h \<in> set HABITS. dailyGoal h \<le> checked_items_of store dateKey (habit_id h))"
  by (simp add: overallGoalMet_def done_is_checked_items list_all_iff)

lemma example_store_rows: "keys_once (byDate example_store)" "catalog_only (byDate example_store)"
  by (simp_all add: keys_once_def catalog_only_def example_store_def catalog_keys_eq)

subsection \<open>Progress of a habit\<close>




text \<open>
  C3. For every store, date and habit of the catalog, the percent of the progress
  calculator is \<open>round (100 * done / itemCount)\<close> cut off at 100, an integer between 0 and
  100; on a date without a record, \<open>done\<close> and the percent are 0.
\<close>

theorem pct_rounded_and_bounded:
  "h \<in> set HABITS \<Longrightarrow>
     \<exists>p. progressForHabit store dateKey (habit_id h) = Some p
       \<and> p_done p = checked_items_of store dateKey (habit_id h)
       \<and> pct p = min 100 (round (100 * real (p_done p) / real (length (items h))))
       \<and> 0 \<le> pct p \<and> pct p \<le> 100
       \<and> (map_of (byDate store) dateKey = None \<longrightarrow> p_done p = 0 \<and> pct p = 0)"
proof -
  assume h: "h \<in> set HABITS"
  let ?d = "checked_items_of store dateKey (habit_id h)"
  let ?n = "length (items h)"
  have "round (0::real) \<le> round ((real ?d / real ?n) * 100)"
    by (rule round_mono) simp
  then have nonneg: "0 \<le> round ((real ?d / real ?n) * 100)"
    by simp
  have none: "map_of (byDate store) dateKey = None \<Longrightarrow> ?d = 0"
    by (simp add: checked_items_of_def)
  show ?thesis
    using nonneg none by (simp add: progressForHabit_catalog [OF h] mult.commute)
qed

theorem pct_rounded_and_bounded_witness:
  "HABITS ! 2 \<in> set HABITS
   \<and> (\<exists>p. progressForHabit example_store ''2024-05-01'' ''exercise'' = Some p
          \<and> p_done p = 2 \<and> pct p = 67)
   \<and> map_of (byDate example_store) ''2024-04-30'' = None
   \<and> (\<exists>p. progressForHabit example_store ''2024-04-30'' ''exercise'' = Some p
          \<and> p_done p = 0 \<and> pct p = 0)"
proof -
  have h: "HABITS ! 2 \<in> set HABITS" by (simp add: HABITS_def)
  have e: "habit_id (HABITS ! 2) = ''exercise''" "length (items (HABITS ! 2)) = 3"
    by (simp_all add: HABITS_def)
  have c: "checked_items_of example_store ''2024-05-01'' ''exercise'' = 2"
    by (simp add: checked_items_of_def example_store_def)
  have r: "min 100 (round (100 * real (2::nat) / real (3::nat))) = 67"
    using round_percent [of 3 2] by simp
  have n: "map_of (byDate example_store) ''2024-04-30'' = None"
    by (simp add: example_store_def)
  have a: "\<exists>p. progressForHabit example_store ''2024-05-01'' ''exercise'' = Some p
            \<and> p_done p = 2 \<and> pct p = 67"
    using pct_rounded_and_bounded [OF h, of example_store "''2024-05-01''"] r
    unfolding e c by auto
  have b: "\<exists>p. progressForHabit example_store ''2024-04-30'' ''exercise'' = Some p
            \<and> p_done p = 0 \<and> pct p = 0"
    using pct_rounded_and_bounded [OF h, of example_store "''2024-04-30''"] n
    unfolding e by auto
  from h a n b show ?thesis by blast
qed

subsection \<open>Badges\<close>

text \<open>
  C4. The thresholds are 3, 7, 14 and 30; for every streak length \<open>s\<close> a badge is among the
  earned ones exactly when \<open>s\<close> has reached its threshold. Hence a longer streak keeps every
  badge of a shorter one, a badge is never earned without the badges of the lower
  thresholds, and at 30 all four are earned together.
\<close>

theorem earnedBadges_iff_threshold:
  "map threshold BADGES = [3, 7, 14, 30]
   \<and> (\<forall>b \<in> set BADGES. (badge_id b \<in> set (earnedBadges s)) = (threshold b \<le> s))
   \<and> (\<forall>s'. s \<le> s' \<longrightarrow> set (earnedBadges s) \<subseteq> set (earnedBadges s'))
   \<and> (\<forall>b \<in> set BADGES. \<forall>b' \<in> set BADGES. threshold b \<le> threshold b' \<longrightarrow>
         badge_id b' \<in> set (earnedBadges s) \<longrightarrow> badge_id b \<in> set (earnedBadges s))
   \<and> earnedBadges 30 = [''bronze_3'', ''silver_7'', ''gold_14'', ''diamond_30'']"
  by (auto simp: earnedBadges_def BADGES_def)

theorem earnedBadges_iff_threshold_witness:
  "BADGES ! 1 \<in> set BADGES \<and> BADGES ! 2 \<in> set BADGES \<and> (7::nat) \<le> 14
   \<and> threshold (BADGES ! 1) \<le> 7 \<and> badge_id (BADGES ! 1) \<in> set (earnedBadges 7)
   \<and> \<not> threshold (BADGES ! 2) \<le> 7 \<and> badge_id (BADGES ! 2) \<notin> set (earnedBadges 7)
   \<and> set (earnedBadges 7) \<subseteq> set (earnedBadges 14)"
proof -
  have b: "BADGES ! 1 \<in> set BADGES" "BADGES ! 2 \<in> set BADGES"
    by (simp_all add: BADGES_def)
  have t: "threshold (BADGES ! 1) = 7" "threshold (BADGES ! 2) = 14"
    by (simp_all add: BADGES_def)
  from earnedBadges_iff_threshold [of 7] b t show ?thesis
    by auto
qed

subsection \<open>The streak\<close>

lemma streak_loop_run:
  "(\<forall>i<n. overallGoalMet store (keyFor H (walk H d i))) \<Longrightarrow>
   \<not> overallGoalMet store (keyFor H (walk H d n)) \<Longrightarrow>
   streak_loop H store streak d = Some (streak + n)"
proof (induction n arbitrary: streak d)
  case 0
  then show ?case by (subst streak_loop.simps) simp
next
  case (Suc n)
  have here: "overallGoalMet store (keyFor H d)"
    using Suc.prems(1) [rule_format, of 0] by simp
  have before: "\<forall>i<n. overallGoalMet store (keyFor H (walk H (prevDate H d 1) i))"
  proof (intro allI impI)
    fix i assume "i < n"
    then show "overallGoalMet store (keyFor H (walk H (prevDate H d 1) i))"
      using Suc.prems(1) [rule_format, of "Suc i"] by simp
  qed
  have stop: "\<not> overallGoalMet store (keyFor H (walk H (prevDate H d 1) n))"
    using Suc.prems(2) by simp
  have "streak_loop H store streak d = streak_loop H store (streak + 1) (prevDate H d 1)"
    using here by (subst streak_loop.simps) simp
  also have "\<dots> = Some (streak + 1 + n)"
    using before stop by (rule Suc.IH)
  finally show ?case by simp
qed

lemma streak_loop_Some:
  assumes "streak_loop H store streak d = Some y"
  shows "\<exists>n. y = streak + n \<and> (\<forall>i<n. overallGoalMet store (keyFor H (walk H d i)))
        \<and> \<not> overallGoalMet store (keyFor H (walk H d n))"
proof (rule streak_loop.raw_induct
    [where P = "\<lambda>H store streak d y.
       \<exists>n. y = streak + n \<and> (\<forall>i<n. overallGoalMet store (keyFor H (walk H d i)))
            \<and> \<not> overallGoalMet store (keyFor H (walk H d n))", OF _ assms], goal_cases)
  case (1 loop H store streak d y)
  show ?case
  proof (cases "overallGoalMet store (keyFor H d)")
    case False
    with 1(2) have "y = streak" by simp
    with False show ?thesis by (intro exI [of _ 0]) simp
  next
    case True
    with 1(2) have rest: "loop H store (streak + 1) (prevDate H d 1) = Some y" by simp
    have "\<exists>n. y = streak + 1 + n
            \<and> (\<forall>i<n. overallGoalMet store (keyFor H (walk H (prevDate H d 1) i)))
            \<and> \<not> overallGoalMet store (keyFor H (walk H (prevDate H d 1) n))"
      using rest by (rule 1(1))
    then obtain n where n: "y = streak + 1 + n"
      "\<forall>i<n. overallGoalMet store (keyFor H (walk H (prevDate H d 1) i))"
      "\<not> overallGoalMet store (keyFor H (walk H (prevDate H d 1) n))"
      by blast
    have "\<forall>i<Suc n. overallGoalMet store (keyFor H (walk H d i))"
    proof (intro allI impI)
      fix i assume i: "i < Suc n"
      show "overallGoalMet store (keyFor H (walk H d i))"
      proof (cases i)
        case 0
        with True show ?thesis by simp
      next
        case (Suc j)
        with i n(2) [rule_format, of j] show ?thesis by simp
      qed
    qed
    moreover have "\<not> overallGoalMet store (keyFor H (walk H d (Suc n)))"
      using n(3) by simp
    ultimately show ?thesis
      using n(1) by (intro exI [of _ "Suc n"]) simp
  qed
qed

lemma overallStreak_iff:
  "(overallStreak H store d = Some n) =
     ((\<forall>i<n. overallGoalMet store (keyFor H (walk H d i)))
      \<and> \<not> overallGoalMet store (keyFor H (walk H d n)))"
proof
  assume "overallStreak H store d = Some n"
  then show "(\<forall>i<n. overallGoalMet store (keyFor H (walk H d i)))
      \<and> \<not> overallGoalMet store (keyFor H (walk H d n))"
    unfolding overallStreak_def by (auto dest: streak_loop_Some)
next
  assume "(\<forall>i<n. overallGoalMet store (keyFor H (walk H d i)))
      \<and> \<not> overallGoalMet store (keyFor H (walk H d n))"
  then show "overallStreak H store d = Some n"
    unfolding overallStreak_def using streak_loop_run [of n store H d 0] by simp
qed

text \<open>On a host whose offset from UTC never changes, the walk goes back day by day.\<close>

lemma prevDate_fixed_offset:
  assumes "tza_utc H = (\<lambda>t. c)" "tza_local H = (\<lambda>t. c)"
  shows "prevDate H d days = d - int days * msPerDay"
proof -
  have "MakeDate (Day t - int days) (TimeWithinDay t) = t - int days * msPerDay" for t
    by (simp add: MakeDate_def Day_def TimeWithinDay_def algebra_simps)
  then show ?thesis
    using assms by (simp add: prevDate_def LocalTime_def UTC_def Let_def)
qed

lemma walk_fixed_offset:
  assumes "tza_utc H = (\<lambda>t. c)" "tza_local H = (\<lambda>t. c)"
  shows "walk H d i = d - int i * msPerDay"
  by (induction i arbitrary: d) (simp_all add: prevDate_fixed_offset [OF assms] algebra_simps)

lemma keyFor_walk_fixed_offset:
  assumes "tza_utc H = (\<lambda>t. c)" "tza_local H = (\<lambda>t. c)"
  shows "keyFor H (walk H (newDate day) i) = isoDate H (day - int i)"
proof -
  have "newDate day - int i * msPerDay = (day - int i) * msPerDay"
    by (simp add: newDate_def MakeDate_def algebra_simps)
  then have "Day (newDate day - int i * msPerDay) = day - int i"
    by (simp add: Day_def msPerDay_def)
  then show ?thesis
    by (simp add: keyFor_def walk_fixed_offset [OF assms])
qed

lemma overallStreak_fixed_offset:
  assumes "tza_utc H = (\<lambda>t. c)" "tza_local H = (\<lambda>t. c)"
  shows "(overallStreak H store (newDate day) = Some n) =
     ((\<forall>i<n. overallGoalMet store (isoDate H (day - int i)))
      \<and> \<not> overallGoalMet store (isoDate H (day - int n)))"
  by (simp add: overallStreak_iff keyFor_walk_fixed_offset [OF assms])

lemma overallGoalMet_has_record:
  assumes "overallGoalMet store dateKey"
  shows "\<exists>r. map_of (byDate store) dateKey = Some r \<and> (\<exists>e \<in> set (checks r). snd e)"
proof -
  have "HABITS ! 0 \<in> set HABITS" by (simp add: HABITS_def)
  then have "1 \<le> dailyGoal (HABITS ! 0)" by (rule dailyGoal_HABITS)
  moreover have "dailyGoal (HABITS ! 0) \<le> checked_items_of store dateKey (habit_id (HABITS ! 0))"
    using assms \<open>HABITS ! 0 \<in> set HABITS\<close> by (simp add: overallGoalMet_iff)
  ultimately have pos: "0 < checked_items_of store dateKey (habit_id (HABITS ! 0))"
    by simp
  then obtain r where r: "map_of (byDate store) dateKey = Some r"
    by (cases "map_of (byDate store) dateKey") (simp_all add: checked_items_of_def)
  with pos have "filter (\<lambda>(k, v). v \<and> element (split_dot k) 0 = Some (habit_id (HABITS ! 0))) (checks r) \<noteq> []"
    by (simp add: checked_items_of_def)
  then obtain e where "e \<in> set (checks r)" "snd e"
    by (auto simp: filter_empty_conv)
  with r show ?thesis by blast
qed

lemma streak_walk_stops:
  assumes more: "length (byDate store) < card ((\<lambda>i. keyFor H (walk H d i)) ` {..M})"
  shows "\<exists>n \<le> M. \<not> overallGoalMet store (keyFor H (walk H d n))"
proof (rule ccontr)
  assume "\<not> ?thesis"
  then have all: "\<And>n. n \<le> M \<Longrightarrow> overallGoalMet store (keyFor H (walk H d n))"
    by blast
  have sub: "(\<lambda>i. keyFor H (walk H d i)) ` {..M} \<subseteq> fst ` set (byDate store)"
  proof
    fix k assume "k \<in> (\<lambda>i. keyFor H (walk H d i)) ` {..M}"
    then obtain i where "i \<le> M" "k = keyFor H (walk H d i)" by auto
    with all [of i] have "overallGoalMet store k" by simp
    then obtain r where "map_of (byDate store) k = Some r"
      using overallGoalMet_has_record by blast
    then have "(k, r) \<in> set (byDate store)" by (rule map_of_SomeD)
    then show "k \<in> fst ` set (byDate store)" by force
  qed
  have "card ((\<lambda>i. keyFor H (walk H d i)) ` {..M}) \<le> card (fst ` set (byDate store))"
    using sub by (simp add: card_mono)
  moreover have "card (fst ` set (byDate store)) \<le> length (byDate store)"
    by (rule order_trans [OF card_image_le card_length]) simp
  ultimately show False using more by simp
qed

lemma overallStreak_returns:
  assumes "length (byDate store) < card ((\<lambda>i. keyFor H (walk H d i)) ` {..M})"
  shows "\<exists>n \<le> M. overallStreak H store d = Some n"
proof -
  obtain m where m: "m \<le> M" "\<not> overallGoalMet store (keyFor H (walk H d m))"
    using streak_walk_stops [OF assms] by blast
  define Q where "Q n = (\<not> overallGoalMet store (keyFor H (walk H d n)))" for n
  from m(2) have "\<exists>n. Q n" unfolding Q_def by blast
  then obtain n where n: "Q n" "\<forall>i<n. \<not> Q i"
    unfolding exists_least_iff [of Q] by blast
  have "n \<le> m"
    using n(2) m(2) unfolding Q_def by (meson not_le_imp_less)
  moreover have "overallStreak H store d = Some n"
    using n unfolding Q_def by (simp add: overallStreak_iff)
  ultimately show ?thesis
    using m(1) by auto
qed

lemma overallStreak_returns_fixed_offset:
  assumes fixed: "tza_utc H = (\<lambda>t. c)" "tza_local H = (\<lambda>t. c)"
    and inj: "inj_on (isoDate H) {day - int (length (byDate store)) .. day}"
  shows "\<exists>n \<le> length (byDate store). overallStreak H store (newDate day) = Some n"
proof (rule overallStreak_returns)
  let ?N = "length (byDate store)"
  have "(\<lambda>i. keyFor H (walk H (newDate day) i)) ` {..?N}
          = isoDate H ` ((\<lambda>i. day - int i) ` {..?N})"
    by (simp add: keyFor_walk_fixed_offset [OF fixed] image_image)
  moreover have "(\<lambda>i. day - int i) ` {..?N} \<subseteq> {day - int ?N .. day}"
    by auto
  then have "inj_on (isoDate H) ((\<lambda>i. day - int i) ` {..?N})"
    using inj by (rule inj_on_subset [rotated])
  moreover have "inj_on (\<lambda>i. day - int i) {..?N}"
    by (simp add: inj_on_def)
  ultimately have "card ((\<lambda>i. keyFor H (walk H (newDate day) i)) ` {..?N}) = card {..?N}"
    by (simp add: card_image)
  then show "?N < card ((\<lambda>i. keyFor H (walk H (newDate day) i)) ` {..?N})"
    by simp
qed

lemma new_york_walk:
  "walk new_york (newDate 20031) 0 = 1730678400000"
  "walk new_york (newDate 20031) (Suc 0) = 1730588400000"
  "walk new_york (newDate 20031) (Suc (Suc 0)) = 1730502000000"
  by (simp_all add: prevDate_def LocalTime_def UTC_def MakeDate_def Day_def TimeWithinDay_def
      msPerDay_def new_york_def newDate_def)

lemma new_york_keys:
  "keyFor new_york (walk new_york (newDate 20031) 0) = ''2024-11-04''"
  "keyFor new_york (walk new_york (newDate 20031) (Suc 0)) = ''2024-11-02''"
  "keyFor new_york (walk new_york (newDate 20031) (Suc (Suc 0))) = ''2024-11-01''"
  unfolding new_york_walk
  by (simp_all add: keyFor_def Day_def msPerDay_def new_york_def iso_2024_def)

lemma dst_store_days:
  "overallGoalMet dst_store ''2024-11-04''" "\<not> overallGoalMet dst_store ''2024-11-03''"
  "overallGoalMet dst_store ''2024-11-02''" "\<not> overallGoalMet dst_store ''2024-11-01''"
  by (simp_all add: overallGoalMet_iff checked_items_of_def dst_store_def met_checks_def HABITS_def)

lemma streak_store_days:
  "overallGoalMet streak_store ''2024-04-30''" "overallGoalMet streak_store ''2024-04-29''"
  "overallGoalMet streak_store ''2024-04-28''" "\<not> overallGoalMet streak_store ''2024-04-27''"
  "\<not> overallGoalMet streak_store ''2024-05-01''"
  by (simp_all add: overallGoalMet_iff checked_items_of_def streak_store_def met_checks_def HABITS_def)

lemma utc_host_fixed: "tza_utc utc_host = (\<lambda>t. 0)" "tza_local utc_host = (\<lambda>t. 0)"
  by (simp_all add: utc_host_def)


text \<open>The specification's example: three days that qualify, then one that does not.\<close>

lemma overallStreak_example:
  "overallStreak utc_host streak_store (newDate 19843) = Some 3"
  "overallStreak utc_host streak_store (newDate 19844) = Some 0"
proof -
  have "\<forall>i<3. overallGoalMet streak_store (isoDate utc_host (19843 - int i))"
  proof (intro allI impI)
    fix i :: nat assume "i < 3"
    then have "i = 0 \<or> i = 1 \<or> i = 2" by auto
    then show "overallGoalMet streak_store (isoDate utc_host (19843 - int i))"
      using streak_store_days by (auto simp: utc_host_def iso_2024_def)
  qed
  moreover have "\<not> overallGoalMet streak_store (isoDate utc_host (19843 - int 3))"
    using streak_store_days by (simp add: utc_host_def iso_2024_def)
  ultimately show "overallStreak utc_host streak_store (newDate 19843) = Some 3"
    unfolding overallStreak_fixed_offset [OF utc_host_fixed] by blast
  have "\<not> overallGoalMet streak_store (isoDate utc_host (19844 - int 0))"
    using streak_store_days by (simp add: utc_host_def iso_2024_def)
  then show "overallStreak utc_host streak_store (newDate 19844) = Some 0"
    by (simp add: overallStreak_fixed_offset [OF utc_host_fixed])
qed

text \<open>
  C1 says that the streak is the number of consecutive calendar days, from the reference
  date backward, on which \<open>overallGoalMet\<close> holds, and 1 when the reference day qualifies
  and the day before does not. On a host with a fixed offset it is (\<open>overallStreak_fixed_offset\<close>).
  On a host that changes its offset the walk leaves the calendar: in New York, from
  4 November 2024, \<open>prevDate\<close> goes to 23:00 UTC of 2 November, so that 3 November is never
  tested; the reference day qualifies, the day before it does not, and the streak is 2.
\<close>

theorem overallStreak_skips_day:
  "keyFor new_york (newDate 20031) = ''2024-11-04''
   \<and> isoDate new_york (20031 - 1) = ''2024-11-03''
   \<and> keyFor new_york (prevDate new_york (newDate 20031) 1) = ''2024-11-02''
   \<and> overallGoalMet dst_store ''2024-11-04''
   \<and> \<not> overallGoalMet dst_store ''2024-11-03''
   \<and> overallStreak new_york dst_store (newDate 20031) = Some 2"
proof -
  have "\<forall>i<2. overallGoalMet dst_store (keyFor new_york (walk new_york (newDate 20031) i))"
  proof (intro allI impI)
    fix i :: nat assume "i < 2"
    then have "i = 0 \<or> i = Suc 0" by auto
    then show "overallGoalMet dst_store (keyFor new_york (walk new_york (newDate 20031) i))"
      using dst_store_days new_york_keys by auto
  qed
  moreover have "\<not> overallGoalMet dst_store (keyFor new_york (walk new_york (newDate 20031) 2))"
    using dst_store_days new_york_keys by (simp add: numeral_2_eq_2)
  ultimately have streak: "overallStreak new_york dst_store (newDate 20031) = Some 2"
    unfolding overallStreak_iff by blast
  have "isoDate new_york (20031 - 1) = ''2024-11-03''"
    by (simp add: new_york_def iso_2024_def)
  moreover have "keyFor new_york (newDate 20031) = ''2024-11-04''"
    "keyFor new_york (prevDate new_york (newDate 20031) 1) = ''2024-11-02''"
    using new_york_keys by simp_all
  ultimately show ?thesis
    using streak dst_store_days by simp
qed

text \<open>Where \<open>prevDate\<close> does not move the date, the walk stays on it.\<close>

lemma walk_fixed_point: "prevDate H d 1 = d \<Longrightarrow> walk H d i = d"
  by (induction i) simp_all

lemma overallStreak_fixed_point:
  assumes "prevDate H d 1 = d" "overallGoalMet store (keyFor H d)"
  shows "overallStreak H store d = None"
proof (cases "overallStreak H store d")
  case None
  then show ?thesis .
next
  case (Some n)
  then have "\<not> overallGoalMet store (keyFor H (walk H d n))"
    by (simp add: overallStreak_iff)
  with assms show ?thesis
    by (simp add: walk_fixed_point)
qed

text \<open>
  C5 says that the backward walk ends for every finite store, a day that qualifies
  needing a record with a checked item. It does need one (\<open>overallGoalMet_has_record\<close>),
  and the walk ends once it has met more keys than the store has records
  (\<open>overallStreak_returns\<close>), as it does on a host with a fixed offset
  (\<open>overallStreak_returns_fixed_offset\<close>). But \<open>prevDate\<close> steps in local time, and on a
  host whose local time skips a day it can fail to step: in Apia, from 31 December 2011,
  \<open>setDate\<close> asks for the 30th, which there is not, and the date that comes back is
  31 December again. With a store of one record, on which that day qualifies, the walk
  never returns.
\<close>

theorem overallStreak_never_returns:
  "keyFor apia (newDate 15339) = ''2011-12-31''
   \<and> overallGoalMet apia_store ''2011-12-31''
   \<and> length (byDate apia_store) = 1
   \<and> prevDate apia (newDate 15339) 1 = newDate 15339
   \<and> overallStreak apia apia_store (newDate 15339) = None"
proof -
  have key: "keyFor apia (newDate 15339) = ''2011-12-31''"
    by (simp add: keyFor_def newDate_def MakeDate_def Day_def msPerDay_def apia_def iso_2011_def)
  have met: "overallGoalMet apia_store ''2011-12-31''"
    by (simp add: overallGoalMet_iff checked_items_of_def apia_store_def met_checks_def HABITS_def)
  have fixed: "prevDate apia (newDate 15339) 1 = newDate 15339"
    by (simp add: prevDate_def LocalTime_def UTC_def MakeDate_def Day_def TimeWithinDay_def
        msPerDay_def apia_def newDate_def)
  have "overallStreak apia apia_store (newDate 15339) = None"
    using fixed met key by (intro overallStreak_fixed_point) simp_all
  with key met fixed show ?thesis
    by (simp add: apia_store_def)
qed

subsection \<open>Loading, clearing and resetting\<close>

text \<open>
  C8, as amended. \<open>loadStore\<close> never fails. It returns the empty store when reading the
  entry throws, when there is no entry, when the entry does not parse, and when the
  parsed value has no \<open>byDate\<close> field; the value of a persisted store is returned as
  parsed. It is the one failure that the program handles: \<open>saveStore\<close> fails whenever
  writing the entry does.
\<close>

theorem loadStore_total:
  "loadStore JSON_parse getItem \<noteq> Throw
   \<and> (getItem STORAGE_KEY = Throw \<longrightarrow> loadStore JSON_parse getItem = Normal empty_store)
   \<and> (getItem STORAGE_KEY = Normal None \<longrightarrow> loadStore JSON_parse getItem = Normal empty_store)
   \<and> (\<forall>raw. getItem STORAGE_KEY = Normal (Some raw) \<longrightarrow>
        (JSON_parse raw = Throw \<longrightarrow> loadStore JSON_parse getItem = Normal empty_store)
        \<and> (\<forall>parsed. JSON_parse raw = Normal parsed \<longrightarrow> byDate_of parsed = None \<longrightarrow>
              loadStore JSON_parse getItem = Normal empty_store)
        \<and> (\<forall>store. raw \<noteq> [] \<longrightarrow> JSON_parse raw = Normal (json_of_store store) \<longrightarrow>
              loadStore JSON_parse getItem = Normal (json_of_store store)))
   \<and> json_of_store \<lparr>byDate = []\<rparr> = empty_store
   \<and> (setItem STORAGE_KEY (JSON_stringify (json_of_store store')) = Throw \<longrightarrow>
        saveStore setItem JSON_stringify store' = Throw)"
  by (auto simp: loadStore_def loadStore_try_def json_of_store_def empty_store_def saveStore_def
      split: completion.splits option.splits)

theorem loadStore_total_witness:
  "(\<lambda>k. Normal (Some ''stored'')) STORAGE_KEY = Normal (Some ''stored'') \<and> ''stored'' \<noteq> []
   \<and> (\<lambda>r. Normal (json_of_store example_store)) ''stored'' = Normal (json_of_store example_store)
   \<and> loadStore (\<lambda>r. Normal (json_of_store example_store)) (\<lambda>k. Normal (Some ''stored''))
       = Normal (json_of_store example_store)
   \<and> (\<lambda>r. Throw :: json completion) ''stored'' = Throw
   \<and> loadStore (\<lambda>r. Throw) (\<lambda>k. Normal (Some ''stored'')) = Normal empty_store
   \<and> (\<lambda>r. Normal (JArr [])) ''stored'' = Normal (JArr []) \<and> byDate_of (JArr []) = None
   \<and> loadStore (\<lambda>r. Normal (JArr [])) (\<lambda>k. Normal (Some ''stored'')) = Normal empty_store"
  using loadStore_total [of "\<lambda>r. Normal (json_of_store example_store)" "\<lambda>k. Normal (Some ''stored'')"]
    loadStore_total [of "\<lambda>r. Throw" "\<lambda>k. Normal (Some ''stored'')"]
    loadStore_total [of "\<lambda>r. Normal (JArr [])" "\<lambda>k. Normal (Some ''stored'')"]
  by simp

text \<open>
  C8, as stated, calls the failure of the load the program's only failure mode. Saving
  fails too, and is not handled: with a storage that refuses the write, \<open>saveStore\<close> throws.
\<close>

theorem saveStore_throws_counterexample:
  "saveStore (\<lambda>k v. Throw) (\<lambda>j. ''{}'') example_store = Throw"
  by (simp add: saveStore_def)

text \<open>
  C9. Clearing the selected date removes that date's record from the store: the date has
  no record afterwards and is no key of the store, and every other date keeps its record
  (in the same order). Resetting gives the empty store when confirmed and leaves the
  store as it is when not.
\<close>

theorem clearDate_frame:
  "map_of (byDate (clearDate selectedDate store)) selectedDate = None
   \<and> selectedDate \<notin> fst ` set (byDate (clearDate selectedDate store))
   \<and> (\<forall>d. d \<noteq> selectedDate \<longrightarrow>
         map_of (byDate (clearDate selectedDate store)) d = map_of (byDate store) d)
   \<and> byDate (clearDate selectedDate store) = filter (\<lambda>(d, r). d \<noteq> selectedDate) (byDate store)
   \<and> resetAll True store = \<lparr>byDate = []\<rparr>
   \<and> resetAll False store = store"
proof -
  let ?next = "AList.delete selectedDate (byDate store)"
  have gone: "map_of ?next selectedDate = None"
    by (simp add: AList.delete_conv')
  have absent: "selectedDate \<notin> fst ` set ?next"
    by (rule AList.delete_notin_dom)
  have others: "\<forall>d. d \<noteq> selectedDate \<longrightarrow> map_of ?next d = map_of (byDate store) d"
    by (simp add: AList.delete_conv')
  have order: "?next = filter (\<lambda>(d, r). d \<noteq> selectedDate) (byDate store)"
    unfolding AList.delete_eq by (rule filter_cong) auto
  have reset: "resetAll True store = \<lparr>byDate = []\<rparr>" "resetAll False store = store"
    by (simp_all add: resetAll_def)
  have next_eq: "byDate (clearDate selectedDate store) = ?next"
    by (simp add: clearDate_def)
  show ?thesis
    unfolding next_eq using gone absent others order reset by blast
qed

theorem clearDate_frame_witness:
  "''2024-04-30'' \<noteq> ''2024-05-01''
   \<and> map_of (byDate (clearDate ''2024-04-30'' (toggleCheck ''2024-04-30'' ''eating'' ''no_sugar'' example_store)))
        ''2024-04-30'' = None
   \<and> map_of (byDate (toggleCheck ''2024-04-30'' ''eating'' ''no_sugar'' example_store)) ''2024-04-30''
        = Some \<lparr>date = ''2024-04-30'', checks = [(''eating.no_sugar'', True)]\<rparr>
   \<and> map_of (byDate (clearDate ''2024-04-30'' (toggleCheck ''2024-04-30'' ''eating'' ''no_sugar'' example_store)))
        ''2024-05-01'' = map_of (byDate example_store) ''2024-05-01''"
  using clearDate_frame [of "''2024-04-30''" "toggleCheck ''2024-04-30'' ''eating'' ''no_sugar'' example_store"]
  by (simp add: toggleCheck_def example_store_def)

subsection \<open>CSV export\<close>

lemma missing_rows_length:
  "length (concat (map (\<lambda>h. concat (map (\<lambda>it. if P (f h it) then [g h it] else []) (items h))) hs))
     = length (filter P (concat (map (\<lambda>h. map (f h) (items h)) hs)))"
proof (induction hs)
  case Nil
  show ?case by simp
next
  case (Cons h hs)
  have inner: "length (concat (map (\<lambda>it. if P (f h it) then [g h it] else []) its))
                 = length (filter P (map (f h) its))" for its
    by (induction its) simp_all
  show ?case using Cons.IH by (simp add: inner)
qed

lemma distinct_split_count:
  assumes "distinct ks" "distinct cs"
  shows "length (filter (\<lambda>k. k \<in> set cs) ks) + length (filter (\<lambda>k. k \<notin> set ks) cs) = length cs"
proof -
  have a: "length (filter (\<lambda>k. k \<in> set cs) ks) = card (set ks \<inter> set cs)"
    using assms(1) by (simp add: distinct_length_filter Int_commute)
  have b: "length (filter (\<lambda>k. k \<notin> set ks) cs) = card (set cs - set ks)"
  proof -
    have "{x. x \<notin> set ks} \<inter> set cs = set cs - set ks" by auto
    then show ?thesis using assms(2) by (simp only: distinct_length_filter)
  qed
  have "card (set ks \<inter> set cs) + card (set cs - set ks) = card (set cs)"
    by (metis Int_commute List.finite_set card_Diff_subset_Int card_Int_Diff add.commute finite_Int)
  then show ?thesis using a b assms(2) by (simp add: distinct_card)
qed

lemma day_rows_length:
  assumes "distinct (map fst (checks day))"
  shows "length (day_rows day)
           = 8 + length (filter (\<lambda>(k, v). k \<notin> set catalog_keys) (checks day))"
proof -
  let ?ks = "map fst (checks day)"
  have none: "(map_of (checks day) k = None) = (k \<notin> set ?ks)" for k
    by (simp add: map_of_eq_None_iff)
  have miss: "length (concat (map (\<lambda>h. concat (map (\<lambda>it.
            let k = habit_id h @ ''.'' @ item_id it
            in if map_of (checks day) k = None
               then [join '','' [Some (date day), Some (habit_id h), Some (item_id it), Some ''0'']]
               else []) (items h))) HABITS))
        = length (filter (\<lambda>k. k \<notin> set ?ks) catalog_keys)"
    unfolding Let_def none catalog_keys_def
    by (rule missing_rows_length [where P = "\<lambda>k. k \<notin> set ?ks"
          and f = "\<lambda>h it. habit_id h @ ''.'' @ item_id it"])
  have part: "length (checks day)
        = length (filter (\<lambda>k. k \<in> set catalog_keys) ?ks)
          + length (filter (\<lambda>(k, v). k \<notin> set catalog_keys) (checks day))"
  proof -
    have "length (filter (\<lambda>k. k \<in> set catalog_keys) ?ks)
            = length (filter (\<lambda>(k, v). k \<in> set catalog_keys) (checks day))"
      by (simp add: filter_map comp_def case_prod_unfold)
    moreover have "length (checks day)
        = length (filter (\<lambda>(k, v). k \<in> set catalog_keys) (checks day))
          + length (filter (\<lambda>(k, v). k \<notin> set catalog_keys) (checks day))"
      using sum_length_filter_compl [of "\<lambda>(k, v). k \<in> set catalog_keys" "checks day"]
      by (simp add: case_prod_unfold)
    ultimately show ?thesis by simp
  qed
  have "length (filter (\<lambda>k. k \<in> set catalog_keys) ?ks)
          + length (filter (\<lambda>k. k \<notin> set ?ks) catalog_keys) = 8"
    using distinct_split_count [OF assms catalog_keys_distinct] by (simp add: catalog_keys_length)
  then show ?thesis
    using miss part by (simp add: day_rows_def)
qed

lemma exportCSV_rows_length:
  "keys_once byDate_v \<Longrightarrow>
     length (exportCSV_rows byDate_v) = 1 + 8 * length byDate_v + stale_count byDate_v"
proof -
  assume "keys_once byDate_v"
  then have "length (concat (map (\<lambda>(k, day). day_rows day) byDate_v))
               = 8 * length byDate_v + stale_count byDate_v"
  proof (induction byDate_v)
    case Nil
    show ?case by (simp add: stale_count_def)
  next
    case (Cons e es)
    obtain d r where e: "e = (d, r)" by (cases e)
    from Cons.prems e have "distinct (map fst (checks r))" "keys_once es"
      by (simp_all add: keys_once_def)
    then show ?case
      using Cons.IH e by (simp add: day_rows_length stale_count_def)
  qed
  then show ?thesis by (simp add: exportCSV_rows_def)
qed

lemma stale_count_catalog_only: "catalog_only byDate_v \<Longrightarrow> stale_count byDate_v = 0"
proof (induction byDate_v)
  case Nil
  show ?case by (simp add: stale_count_def)
next
  case (Cons e es)
  obtain d r where e: "e = (d, r)" by (cases e)
  from Cons.prems e have "list_all (\<lambda>(k, v). k \<in> set catalog_keys) (checks r)" "catalog_only es"
    by (simp_all add: catalog_only_def)
  then have "filter (\<lambda>(k, v). k \<notin> set catalog_keys) (checks r) = []" "stale_count es = 0"
    using Cons.IH by (auto simp: filter_empty_conv list_all_iff)
  then show ?case using e by (simp add: stale_count_def)
qed


lemma data_rows_set:
  "set (tl (exportCSV_rows byDate_v)) = (\<Union>e \<in> set byDate_v. set (day_rows (snd e)))"
  by (auto simp: exportCSV_rows_def)

lemma catalog_row_present:
  assumes once: "distinct (map fst (checks r))" and h: "h \<in> set HABITS" and it: "it \<in> set (items h)"
  shows "join '','' [Some (date r), Some (habit_id h), Some (item_id it),
                     Some (if map_of (checks r) (habit_id h @ ''.'' @ item_id it) = Some True
                           then ''1'' else ''0'')]
           \<in> set (day_rows r)"
proof (cases "map_of (checks r) (habit_id h @ ''.'' @ item_id it)")
  case None
  then show ?thesis
    using h it unfolding day_rows_def Let_def by (simp del: join.simps) blast
next
  case (Some v)
  let ?k = "habit_id h @ ''.'' @ item_id it"
  have "(?k, v) \<in> set (checks r)"
    using Some by (rule map_of_SomeD)
  moreover have "(\<lambda>(key, checked).
            let parts = split_dot key
            in join '','' [Some (date r), element parts 0, element parts 1,
                           Some (if checked then ''1'' else ''0'')]) (?k, v)
        = join '','' [Some (date r), Some (habit_id h), Some (item_id it),
                      Some (if map_of (checks r) ?k = Some True then ''1'' else ''0'')]"
    using Some split_catalog_key [OF h it] by (simp del: join.simps)
  ultimately show ?thesis
    unfolding day_rows_def by (metis (no_types, lifting) UnI1 image_eqI set_append set_map)
qed

lemma stale_store_rows: "keys_once (byDate stale_store)" "stale_count (byDate stale_store) = 3"
  "length (byDate stale_store) = 1"
  by (simp_all add: keys_once_def stale_count_def stale_store_def catalog_keys_eq)

text \<open>
  C7, as amended. For every store whose records have keys of the catalog only, the export
  has the header row and then 8 rows for each recorded date: for every date and every
  item of the catalog the row \<open>date,habitId,itemId,checked\<close>, with \<open>checked\<close> 1 when the
  item is checked and 0 otherwise, also when the record does not have the key. Every key
  outside the catalog adds a row of its own.
\<close>

theorem exportCSV_rows_of_catalog_store:
  "keys_once byDate_v \<Longrightarrow>
     length catalog_keys = 8
     \<and> exportCSV_rows byDate_v \<noteq> []
     \<and> hd (exportCSV_rows byDate_v) = ''date,habitId,itemId,checked''
     \<and> length (exportCSV_rows byDate_v) = 1 + length byDate_v * 8 + stale_count byDate_v
     \<and> (catalog_only byDate_v \<longrightarrow> length (exportCSV_rows byDate_v) = 1 + length byDate_v * 8)
     \<and> (\<forall>e \<in> set byDate_v. \<forall>h \<in> set HABITS. \<forall>it \<in> set (items h).
           join '','' [Some (date (snd e)), Some (habit_id h), Some (item_id it),
                       Some (if map_of (checks (snd e)) (habit_id h @ ''.'' @ item_id it) = Some True
                             then ''1'' else ''0'')]
             \<in> set (tl (exportCSV_rows byDate_v)))"
proof -
  assume once: "keys_once byDate_v"
  have header: "hd (exportCSV_rows byDate_v) = ''date,habitId,itemId,checked''"
    by (simp add: exportCSV_rows_def headers_def)
  have len: "length (exportCSV_rows byDate_v) = 1 + length byDate_v * 8 + stale_count byDate_v"
    using exportCSV_rows_length [OF once] by simp
  have rows: "\<forall>e \<in> set byDate_v. \<forall>h \<in> set HABITS. \<forall>it \<in> set (items h).
           join '','' [Some (date (snd e)), Some (habit_id h), Some (item_id it),
                       Some (if map_of (checks (snd e)) (habit_id h @ ''.'' @ item_id it) = Some True
                             then ''1'' else ''0'')]
             \<in> set (tl (exportCSV_rows byDate_v))"
  proof (intro ballI)
    fix e h it
    assume e: "e \<in> set byDate_v" and h: "h \<in> set HABITS" and it: "it \<in> set (items h)"
    from once e have "distinct (map fst (checks (snd e)))"
      by (auto simp: keys_once_def list_all_iff)
    then have "join '','' [Some (date (snd e)), Some (habit_id h), Some (item_id it),
                       Some (if map_of (checks (snd e)) (habit_id h @ ''.'' @ item_id it) = Some True
                             then ''1'' else ''0'')] \<in> set (day_rows (snd e))"
      using h it by (rule catalog_row_present)
    then show "join '','' [Some (date (snd e)), Some (habit_id h), Some (item_id it),
                       Some (if map_of (checks (snd e)) (habit_id h @ ''.'' @ item_id it) = Some True
                             then ''1'' else ''0'')] \<in> set (tl (exportCSV_rows byDate_v))"
      using e unfolding data_rows_set by blast
  qed
  show ?thesis
    using header len rows stale_count_catalog_only [of byDate_v]
    by (simp add: catalog_keys_length exportCSV_rows_def)
qed

theorem exportCSV_rows_of_catalog_store_witness:
  "keys_once (byDate example_store) \<and> catalog_only (byDate example_store)
   \<and> length (byDate example_store) = 1
   \<and> length (exportCSV_rows (byDate example_store)) = 9
   \<and> ''2024-05-01,eating,fruits_veggies,0'' \<in> set (tl (exportCSV_rows (byDate example_store)))
   \<and> ''2024-05-01,eating,no_sugar,1'' \<in> set (tl (exportCSV_rows (byDate example_store)))"
proof -
  note t = exportCSV_rows_of_catalog_store [OF example_store_rows(1)]
  have len: "length (byDate example_store) = 1" by (simp add: example_store_def)
  have nine: "length (exportCSV_rows (byDate example_store)) = 9"
    using t example_store_rows(2) len by simp
  let ?e = "(''2024-05-01'', \<lparr>date = ''2024-05-01'', checks = met_checks\<rparr>)"
  have e: "?e \<in> set (byDate example_store)" by (simp add: example_store_def met_checks_def)
  have h: "HABITS ! 1 \<in> set HABITS" by (simp add: HABITS_def)
  have i1: "items (HABITS ! 1) ! 1 \<in> set (items (HABITS ! 1))"
    and i2: "items (HABITS ! 1) ! 2 \<in> set (items (HABITS ! 1))"
    by (simp_all add: HABITS_def)
  from t have rows: "\<forall>e \<in> set (byDate example_store). \<forall>h \<in> set HABITS. \<forall>it \<in> set (items h).
           join '','' [Some (date (snd e)), Some (habit_id h), Some (item_id it),
                       Some (if map_of (checks (snd e)) (habit_id h @ ''.'' @ item_id it) = Some True
                             then ''1'' else ''0'')]
             \<in> set (tl (exportCSV_rows (byDate example_store)))"
    by blast
  have r1: "''2024-05-01,eating,fruits_veggies,0'' \<in> set (tl (exportCSV_rows (byDate example_store)))"
    using rows [rule_format, OF e h i1] by (simp add: HABITS_def met_checks_def)
  have r2: "''2024-05-01,eating,no_sugar,1'' \<in> set (tl (exportCSV_rows (byDate example_store)))"
    using rows [rule_format, OF e h i2] by (simp add: HABITS_def met_checks_def)
  from example_store_rows len nine r1 r2 show ?thesis by blast
qed

text \<open>
  C7, as stated, fails on a store with stale keys: one recorded date with three stale keys
  gives 12 rows, not 9.
\<close>

theorem exportCSV_rows_stale_counterexample:
  "length (exportCSV_rows (byDate stale_store)) = 12
   \<and> length (exportCSV_rows (byDate stale_store)) \<noteq> 1 + length (byDate stale_store) * 8"
  using exportCSV_rows_length [OF stale_store_rows(1)] stale_store_rows(2,3) by simp

subsection \<open>Stale keys\<close>










end
